theory Spec2Isabelle
  imports Complex_Main
begin

section \<open>Values a collaborator can hand back\<close>

text \<open>
  \<^verbatim>\<open>core/Router.ts\<close> receives matcher and predicate responses typed \<^verbatim>\<open>any\<close>.
  The embedding keeps the JavaScript values its tests can tell apart: an object is
  the list of its own properties (the first entry of a name is the property), a
  number is a real (finite and exact: rounding, NaN and the infinities of a double
  are outside the embedding).
\<close>

datatype js =
    JUndefined
  | JNull
  | JBool bool
  | JNum real
  | JStr string
  | JObj "(string \<times> js) list"

datatype jstype = TUndefined | TObject | TBoolean | TNumber | TString

fun typeof :: "js \<Rightarrow> jstype" where
  "typeof JUndefined = TUndefined"
| "typeof JNull = TObject"
| "typeof (JBool _) = TBoolean"
| "typeof (JNum _) = TNumber"
| "typeof (JStr _) = TString"
| "typeof (JObj _) = TObject"

text \<open>The truth value JavaScript gives a value in \<^verbatim>\<open>if (v)\<close> and \<^verbatim>\<open>v || d\<close>.\<close>

fun truthy :: "js \<Rightarrow> bool" where
  "truthy JUndefined = False"
| "truthy JNull = False"
| "truthy (JBool b) = b"
| "truthy (JNum n) = (n \<noteq> 0)"
| "truthy (JStr s) = (s \<noteq> [])"
| "truthy (JObj _) = True"

text \<open>Reading \<^verbatim>\<open>o.name\<close> from an object: a missing property reads \<^verbatim>\<open>undefined\<close>.\<close>

definition getProp :: "(string \<times> js) list \<Rightarrow> string \<Rightarrow> js" where
  "getProp ps name = (case map_of ps name of None \<Rightarrow> JUndefined | Some v \<Rightarrow> v)"

text \<open>Everything the kernel throws, and what a collaborator may throw itself.\<close>

datatype error =
    ReasonNotString        \<comment> \<open>'The reason for NoMatch must be a string'\<close>
  | ScoreNotNumber         \<comment> \<open>'The score for Match must be a number'\<close>
  | PredicateMatchValue    \<comment> \<open>'When returning a Match from a predicate, the value must be true or false'\<close>
  | PredicateContract      \<comment> \<open>'A predicate may only return true, false, a Match of true or false, or a NoMatch'\<close>
  | NullProperty           \<comment> \<open>the TypeError of reading a property of null\<close>
  | Thrown string          \<comment> \<open>a failure raised by a collaborator\<close>

section \<open>Matches\<close>

datatype matchResult =
    Match (mvalue: js) (mscore: real)
  | NoMatch (mreason: string)

definition defaultReason :: string where
  "defaultReason = ''none''"

fun isMatch :: "matchResult \<Rightarrow> bool" where
  "isMatch (Match _ _) = True"
| "isMatch (NoMatch _) = False"

text \<open>\<^verbatim>\<open>response.score || 1\<close>, read as the number the Match carries.\<close>

definition scoreOr1 :: "js \<Rightarrow> real" where
  "scoreOr1 s = (if truthy s then (case s of JNum n \<Rightarrow> n | _ \<Rightarrow> 1) else 1)"

fun normalizeMatchResult :: "js \<Rightarrow> error + matchResult" where
  "normalizeMatchResult JUndefined = Inr (NoMatch defaultReason)"
| "normalizeMatchResult JNull = Inr (NoMatch defaultReason)"
| "normalizeMatchResult (JBool False) = Inr (NoMatch defaultReason)"
| "normalizeMatchResult (JObj ps) =
     (if truthy (getProp ps ''reason'') then
        (case getProp ps ''reason'' of
           JStr r \<Rightarrow> Inr (NoMatch r)
         | _ \<Rightarrow> Inl ReasonNotString)
      else if getProp ps ''value'' \<noteq> JUndefined then
        (if getProp ps ''score'' \<noteq> JUndefined \<and> typeof (getProp ps ''score'') \<noteq> TNumber
         then Inl ScoreNotNumber
         else Inr (Match (getProp ps ''value'') (scoreOr1 (getProp ps ''score''))))
      else Inr (Match (JObj ps) 1))"
| "normalizeMatchResult response = Inr (Match response 1)"

section \<open>Routes\<close>

text \<open>
  The action of a route is a closure the kernel never calls while routing; it is
  kept abstract. \<^verbatim>\<open>Router.minRoute\<close> carries the one action the kernel defines
  itself, the warning that it should never be called.
\<close>

datatype 'a action = Thunk 'a | WarnNeverCalled

record 'a ActionRoute =
  action :: "'a action"
  score :: real

datatype 'a Route =
    Action "'a ActionRoute"
  | No (reason: string)

fun isAction :: "'a Route \<Rightarrow> bool" where
  "isAction (Action _) = True"
| "isAction (No _) = False"

definition actionRoute :: "'a action \<Rightarrow> real option \<Rightarrow> 'a ActionRoute" where
  "actionRoute a sc = \<lparr>action = a, score = (case sc of None \<Rightarrow> 1 | Some s \<Rightarrow> s)\<rparr>"

definition noRoute :: "string option \<Rightarrow> 'a Route" where
  "noRoute r = No (case r of None \<Rightarrow> defaultReason | Some s \<Rightarrow> s)"

definition combineScore :: "real \<Rightarrow> real \<Rightarrow> real" where
  "combineScore sc otherScore = sc * otherScore"

definition routeWithCombinedScore :: "'a ActionRoute \<Rightarrow> real \<Rightarrow> 'a Route" where
  "routeWithCombinedScore route newScore =
     (let sc = combineScore newScore (score route)
      in if score route = sc then Action route else Action (route\<lparr>score := sc\<rparr>))"

text \<open>
  On values the two branches above differ only in which object is returned. To
  tell the objects apart, a store lists the action routes allocated so far, a
  reference is a position in it, and the object literal allocates at the end.
  The function returns the store it leaves and the reference it returns; a
  reference outside the store is no object at all.
\<close>

type_synonym 'a store = "'a ActionRoute list"

definition routeWithCombinedScore_ref ::
    "'a store \<Rightarrow> nat \<Rightarrow> real \<Rightarrow> ('a store \<times> nat) option" where
  "routeWithCombinedScore_ref h r newScore =
     (if r < length h then
        (let route = h ! r; sc = combineScore newScore (score route)
         in if score route = sc then Some (h, r)
            else Some (h @ [route\<lparr>score := sc\<rparr>], length h))
      else None)"

definition minRoute :: "'a ActionRoute" where
  "minRoute = actionRoute WarnNeverCalled (Some 0)"

section \<open>Observables\<close>

text \<open>
  What an Observable delivers to a subscriber that never unsubscribes: the values
  in order, how the sequence ends (a completion, an error, or neither ever), and
  whether all of it arrives inside the call of \<^verbatim>\<open>subscribe\<close> (\<^verbatim>\<open>Observable.of\<close>)
  or later, at one time (a promise, a timer).
\<close>

datatype ending = Completed | Failed error | Pending

datatype timing = Sync | Async

datatype 'a obs = Obs (emits: "'a list") (ending: ending) (timing: timing)

text \<open>
  What a matcher or predicate hands back is taken to answer at most once, as a
  promise does: a value or none, then the ending. \<^verbatim>\<open>flatMap\<close> merges the inner
  sequences of several outer values in the order of their arrival, which is
  not in an \<open>obs\<close>; of one answer there is nothing to merge.
\<close>

datatype 'a answer = Answer (given: "'a option") (closes: ending) (arrives: timing)

datatype 'a promise = Resolved 'a | Rejected error | Unsettled

datatype ('a, 's) observableable = Plain 'a | Stream 's | Promised "'a promise"

fun fromPromise :: "'a promise \<Rightarrow> 'a answer" where
  "fromPromise (Resolved v) = Answer (Some v) Completed Async"
| "fromPromise (Rejected e) = Answer None (Failed e) Async"
| "fromPromise Unsettled = Answer None Pending Async"

fun toObservable :: "('a, 'a answer) observableable \<Rightarrow> 'a answer" where
  "toObservable (Stream t) = t"
| "toObservable (Promised t) = fromPromise t"
| "toObservable (Plain t) = Answer (Some t) Completed Sync"

text \<open>\<^verbatim>\<open>map\<close> with a function that may throw: the throw ends the sequence in error.\<close>

fun mapAnswer :: "('a \<Rightarrow> error + 'b) \<Rightarrow> 'a answer \<Rightarrow> 'b answer" where
  "mapAnswer f (Answer None e t) = Answer None e t"
| "mapAnswer f (Answer (Some x) e t) =
     (case f x of
        Inl err \<Rightarrow> Answer None (Failed err) t
      | Inr y \<Rightarrow> Answer (Some y) e t)"

fun mapEmits :: "('a \<Rightarrow> error + 'b) \<Rightarrow> 'a list \<Rightarrow> ending \<Rightarrow> 'b list \<times> ending" where
  "mapEmits f [] e = ([], e)"
| "mapEmits f (x # xs) e =
     (case f x of
        Inl err \<Rightarrow> ([], Failed err)
      | Inr y \<Rightarrow> (case mapEmits f xs e of (ys, e') \<Rightarrow> (y # ys, e')))"

definition mapObs :: "('a \<Rightarrow> error + 'b) \<Rightarrow> 'a obs \<Rightarrow> 'b obs" where
  "mapObs f ob = (case mapEmits f (emits ob) (ending ob) of (ys, e) \<Rightarrow> Obs ys e (timing ob))"

fun later :: "timing \<Rightarrow> timing \<Rightarrow> timing" where
  "later Sync Sync = Sync"
| "later _ _ = Async"

fun bothEnd :: "ending \<Rightarrow> ending \<Rightarrow> ending" where
  "bothEnd Completed e = e"
| "bothEnd Pending Completed = Pending"
| "bothEnd Pending e = e"
| "bothEnd (Failed err) e = Failed err"

text \<open>
  \<^verbatim>\<open>flatMap\<close> on one answer: the inner sequence of the value is the result, and
  it completes when both have. An answer that fails after its value does so
  in the same turn: a synchronous inner sequence has been delivered by then
  (and its own error came first), an asynchronous one is unsubscribed unheard.
\<close>

fun flatMap :: "('a \<Rightarrow> 'b obs) \<Rightarrow> 'a answer \<Rightarrow> 'b obs" where
  "flatMap f (Answer None e t) = Obs [] e t"
| "flatMap f (Answer (Some x) e t) =
     (case f x of
        Obs ys e' t' \<Rightarrow>
          (case e of
             Failed err \<Rightarrow>
               (if t' = Sync
                then (case e' of
                        Failed err' \<Rightarrow> Obs ys (Failed err') t
                      | _ \<Rightarrow> Obs ys (Failed err) t)
                else Obs [] (Failed err) t)
           | _ \<Rightarrow> Obs ys (bothEnd e' e) (later t t')))"

section \<open>Routers\<close>

type_synonym ('r, 'a) getRoute = "'r \<Rightarrow> 'a Route obs"

type_synonym 'r matcher = "'r \<Rightarrow> (js, js answer) observableable"

definition getRouteNo :: "string option \<Rightarrow> ('r, 'a) getRoute" where
  "getRouteNo rsn = (\<lambda>routable. Obs [noRoute rsn] Completed Sync)"

text \<open>
  A handler is given by the deferred call it stands for on each routable: the
  action \<^verbatim>\<open>() => handler(routable)\<close> is \<open>Thunk (handler routable)\<close>.
\<close>

definition getRouteDo :: "('r \<Rightarrow> 'a) \<Rightarrow> real option \<Rightarrow> ('r, 'a) getRoute" where
  "getRouteDo handler sc =
     (\<lambda>routable. Obs [Action (actionRoute (Thunk (handler routable)) sc)] Completed Sync)"

definition getRouteIfMatches ::
    "'r matcher \<Rightarrow> ('r \<Rightarrow> js \<Rightarrow> ('r, 'a) getRoute) \<Rightarrow>
     ('r \<Rightarrow> string \<Rightarrow> ('r, 'a) getRoute) option \<Rightarrow> ('r, 'a) getRoute" where
  "getRouteIfMatches matcher getThenRouter getElseRouter =
     (let getElse = (case getElseRouter of
                       None \<Rightarrow> (\<lambda>routable rsn. getRouteNo (Some rsn))
                     | Some g \<Rightarrow> g)
      in (\<lambda>routable.
            flatMap
              (\<lambda>matchResult.
                 if isMatch matchResult
                 then mapObs
                        (\<lambda>route. Inr (case route of
                                        Action r \<Rightarrow> routeWithCombinedScore r (mscore matchResult)
                                      | No _ \<Rightarrow> route))
                        (getThenRouter routable (mvalue matchResult) routable)
                 else getElse routable (mreason matchResult) routable)
              (mapAnswer normalizeMatchResult (toObservable (matcher routable)))))"

text \<open>The function \<^verbatim>\<open>predicateToMatcher\<close> maps over the predicate's response.\<close>

fun predicateResponse :: "js \<Rightarrow> error + js" where
  "predicateResponse (JBool b) = Inr (JBool b)"
| "predicateResponse JNull = Inl NullProperty"
| "predicateResponse (JObj ps) =
     (if truthy (getProp ps ''reason'') then Inr (JObj ps)
      else if getProp ps ''value'' \<noteq> JUndefined then
        (if getProp ps ''value'' = JBool False then Inr (JBool False)
         else if getProp ps ''value'' = JBool True then Inr (JObj ps)
         else Inl PredicateMatchValue)
      else Inl PredicateContract)"
| "predicateResponse _ = Inl PredicateContract"

definition predicateToMatcher :: "'r matcher \<Rightarrow> 'r matcher" where
  "predicateToMatcher predicate =
     (\<lambda>routable. Stream (mapAnswer predicateResponse (toObservable (predicate routable))))"

definition getRouteIfTrue ::
    "'r matcher \<Rightarrow> ('r \<Rightarrow> js \<Rightarrow> ('r, 'a) getRoute) \<Rightarrow>
     ('r \<Rightarrow> string \<Rightarrow> ('r, 'a) getRoute) option \<Rightarrow> ('r, 'a) getRoute" where
  "getRouteIfTrue predicate getThenRouter getElseRouter =
     (\<lambda>routable.
        getRouteIfMatches (predicateToMatcher predicate) getThenRouter getElseRouter routable)"

section \<open>The older matcher helper\<close>

text \<open>
  \<^verbatim>\<open>matchize\<close> and \<^verbatim>\<open>toFilteredObservable\<close> of the earlier rule engine: a falsy
  response is dropped, and a boolean that survives is replaced by the message.
  Both work value by value, so an Observable handed back may hold any number
  of values here.
\<close>

definition filterObs :: "('a \<Rightarrow> bool) \<Rightarrow> 'a obs \<Rightarrow> 'a obs" where
  "filterObs p ob = Obs (filter p (emits ob)) (ending ob) (timing ob)"

fun answerObs :: "'a answer \<Rightarrow> 'a obs" where
  "answerObs (Answer None e t) = Obs [] e t"
| "answerObs (Answer (Some v) e t) = Obs [v] e t"

fun toFilteredObservable :: "(js, js obs) observableable \<Rightarrow> js obs" where
  "toFilteredObservable (Plain t) =
     (if \<not> truthy t then Obs [] Completed Sync else Obs [t] Completed Sync)"
| "toFilteredObservable (Stream t) = filterObs truthy t"
| "toFilteredObservable (Promised t) = filterObs truthy (answerObs (fromPromise t))"

definition matchize :: "(js \<Rightarrow> (js, js obs) observableable) \<Rightarrow> js \<Rightarrow> js obs" where
  "matchize matcher message =
     mapObs (\<lambda>m. Inr (if typeof m = TBoolean then message else m))
       (toFilteredObservable (matcher message))"

section \<open>Subscriptions\<close>

text \<open>
  \<^verbatim>\<open>getRouteFirst$\<close> and \<^verbatim>\<open>getRouteBest$\<close> push the array of routers through
  \<^verbatim>\<open>concatMap\<close>, which is \<^verbatim>\<open>mergeMap\<close> with one inner subscription at a time.
  Which routers have \<^verbatim>\<open>getRoute$\<close> called depends on when the inner sequences
  answer, so the routers are followed one by one, in one of three phases.

  \<open>Pushing\<close>: \<^verbatim>\<open>Observable.from\<close> is still in its loop, inside the call of
  \<^verbatim>\<open>subscribe\<close>; every inner sequence so far answered synchronously and
  completed, so each router is projected as it is pushed, and the loop looks
  at \<^verbatim>\<open>subscriber.closed\<close> before the next.

  \<open>Buffered\<close>: an inner sequence answers later. The loop has pushed the rest
  of the array into the buffer of \<^verbatim>\<open>concatMap\<close> and \<^verbatim>\<open>subscribe\<close> has returned.
  \<^verbatim>\<open>notifyComplete\<close> of an inner sequence takes the next router from the buffer
  and projects it.

  \<open>Unsubscribed\<close>: the chain was unsubscribed while a synchronous inner
  sequence from the buffer was being delivered. That inner subscriber is
  added to \<^verbatim>\<open>concatMap\<close> only when its \<^verbatim>\<open>subscribe\<close> returns, so the
  unsubscription does not reach it: its completion still calls
  \<^verbatim>\<open>notifyComplete\<close>, which projects the next router of the buffer without
  looking at \<^verbatim>\<open>closed\<close>. What these inner sequences emit goes to a stopped
  subscriber and is dropped. This goes on while they answer synchronously
  and complete; one that answers later is subscribed, added to the closed
  \<^verbatim>\<open>concatMap\<close> and with that unsubscribed. An inner sequence that answers
  later has long been added when it emits: unsubscribing reaches it, and the
  buffer stays as it is.
\<close>

datatype phase = Pushing | Buffered | Unsubscribed

section \<open>The combinator \<open>first\<close>\<close>

text \<open>
  A run of \<^verbatim>\<open>getRouteFirst$\<close> is the sequence of what happens, in order: the
  line \<^verbatim>\<open>konsole.log(`first: trying router #${i}`)\<close> that the projection
  writes when it calls \<^verbatim>\<open>getRoute$\<close> of router \<open>i\<close>, or a value handed to the
  subscriber of the whole; and how the whole ends. The second log line, of
  \<^verbatim>\<open>do\<close>, repeats the value of the inner sequence and is left out.
\<close>

datatype 'a event = Next 'a | Trying nat

datatype 'a run = Run (events: "'a event list") (ended: ending)

definition before :: "'a event list \<Rightarrow> 'a run \<Rightarrow> 'a run" where
  "before evs r = Run (evs @ events r) (ended r)"

text \<open>
  The routers are the defined ones, \<open>i\<close> is the index \<^verbatim>\<open>concatMap\<close> counts.
  Below the projection, \<^verbatim>\<open>filter\<close> keeps the action routes, \<^verbatim>\<open>take(1)\<close> hands
  the first one on, completes and unsubscribes, and \<^verbatim>\<open>defaultIfEmpty\<close> supplies
  the no-route when the source completes with nothing handed on. An inner
  error ends the run; an inner sequence that never completes is waited for.
\<close>

fun firstLoop :: "phase \<Rightarrow> 'r \<Rightarrow> ('r, 'a) getRoute list \<Rightarrow> nat \<Rightarrow> 'a Route run" where
  "firstLoop ph routable [] i =
     (if ph = Unsubscribed then Run [] Completed
      else Run [Next (noRoute (Some ''tryInOrder''))] Completed)"
| "firstLoop ph routable (g # routers) i =
     (let ob = g routable
      in if ph = Unsubscribed then
           (if timing ob = Sync \<and> ending ob = Completed
            then before [Trying i] (firstLoop Unsubscribed routable routers (Suc i))
            else Run [Trying i] Completed)
         else
           (let ph' = (if timing ob = Async then Buffered else ph)
            in case filter isAction (emits ob) of
                 a # _ \<Rightarrow>
                   (if ph = Buffered \<and> timing ob = Sync \<and> ending ob = Completed
                    then before [Trying i, Next a]
                           (firstLoop Unsubscribed routable routers (Suc i))
                    else Run [Trying i, Next a] Completed)
               | [] \<Rightarrow>
                   (case ending ob of
                      Completed \<Rightarrow> before [Trying i] (firstLoop ph' routable routers (Suc i))
                    | Failed e \<Rightarrow> Run [Trying i] (Failed e)
                    | Pending \<Rightarrow> Run [Trying i] Pending)))"

text \<open>
  The routers may hold \<^verbatim>\<open>undefined\<close> (\<open>None\<close>); \<^verbatim>\<open>filter(router => !!router)\<close>
  drops those before the projection.
\<close>

definition getRouteFirst :: "('r, 'a) getRoute option list \<Rightarrow> 'r \<Rightarrow> 'a Route run" where
  "getRouteFirst routers =
     (\<lambda>routable.
        firstLoop Pushing routable (map the (filter (\<lambda>router. router \<noteq> None) routers)) 0)"

section \<open>The combinator \<open>best\<close>\<close>

text \<open>
  \<^verbatim>\<open>getRouteBest$\<close> keeps state: the variable \<^verbatim>\<open>bestRoute\<close>, read by the
  predicate of \<^verbatim>\<open>takeWhile\<close> and written by the subscriber at the end of the
  chain; the flag of \<^verbatim>\<open>defaultIfEmpty\<close>; and the observer handed to the caller,
  which takes values until its first completion or error. \<open>outcome = Pending\<close>
  is the observer still open. \<open>invoked\<close> lists the routers (by position among
  the defined ones) whose \<^verbatim>\<open>getRoute$\<close> the projection has called.
\<close>

record 'a bestState =
  bestRoute :: "'a ActionRoute"
  isEmpty :: bool
  delivered :: "'a Route list"
  outcome :: ending
  invoked :: "nat list"

definition observerNext :: "'a Route \<Rightarrow> 'a bestState \<Rightarrow> 'a bestState" where
  "observerNext route st =
     (if outcome st = Pending then st\<lparr>delivered := delivered st @ [route]\<rparr> else st)"

definition observerComplete :: "'a bestState \<Rightarrow> 'a bestState" where
  "observerComplete st = (if outcome st = Pending then st\<lparr>outcome := Completed\<rparr> else st)"

definition observerError :: "error \<Rightarrow> 'a bestState \<Rightarrow> 'a bestState" where
  "observerError e st = (if outcome st = Pending then st\<lparr>outcome := Failed e\<rparr> else st)"

text \<open>
  The three callbacks of \<^verbatim>\<open>subscribe\<close>. The first is typed on an
  \<^verbatim>\<open>ActionRoute\<close> but also receives the no-route of \<^verbatim>\<open>defaultIfEmpty\<close>, whose
  \<^verbatim>\<open>score\<close> reads \<^verbatim>\<open>undefined\<close>: the comparison is then false.
\<close>

definition onNext :: "'a Route \<Rightarrow> 'a bestState \<Rightarrow> 'a bestState" where
  "onNext route st =
     (case route of
        No _ \<Rightarrow> st
      | Action r \<Rightarrow>
          if score r > score (bestRoute st) then
            (let st' = st\<lparr>bestRoute := r\<rparr>
             in if score (bestRoute st') = 1
                then observerComplete (observerNext (Action (bestRoute st')) st')
                else st')
          else st)"

definition onComplete :: "'a bestState \<Rightarrow> 'a bestState" where
  "onComplete st =
     observerComplete
       (if score (bestRoute st) > 0 then observerNext (Action (bestRoute st)) st else st)"

text \<open>Below \<^verbatim>\<open>concatMap\<close>: the filter on action routes, \<^verbatim>\<open>defaultIfEmpty\<close>, the subscriber.\<close>

definition deliver :: "'a Route \<Rightarrow> 'a bestState \<Rightarrow> 'a bestState" where
  "deliver route st = (if isAction route then onNext route (st\<lparr>isEmpty := False\<rparr>) else st)"

definition finish :: "'a bestState \<Rightarrow> 'a bestState" where
  "finish st =
     onComplete (if isEmpty st then onNext (noRoute (Some ''tryInScoreOrder'')) st else st)"

text \<open>
  \<open>torn\<close> says that the teardown \<^verbatim>\<open>() => subscription.unsubscribe()\<close> is in
  place. It is returned only when the synchronous part of \<^verbatim>\<open>subscribe\<close> is
  over; from then on the completion of the observer unsubscribes the chain,
  and nothing more is delivered.
\<close>

fun feed :: "bool \<Rightarrow> 'a Route list \<Rightarrow> 'a bestState \<Rightarrow> 'a bestState" where
  "feed torn [] st = st"
| "feed torn (route # routes) st =
     (if torn \<and> outcome st \<noteq> Pending then st
      else feed torn routes (deliver route st))"

text \<open>
  While \<open>Pushing\<close>, each router meets \<^verbatim>\<open>takeWhile\<close> with the current
  \<^verbatim>\<open>bestRoute\<close>, and the observer may complete without the chain being
  unsubscribed. At the first inner sequence that answers later the rest of
  the array passes \<^verbatim>\<open>takeWhile\<close> at once, \<^verbatim>\<open>bestRoute\<close> being what it was, and
  waits in the buffer; the teardown is in place before anything more arrives.
  From then on the completion of the observer unsubscribes the chain: during
  an inner sequence that answers later this ends everything, during a
  synchronous one that completes the buffer is still projected, router by
  router, as told for the phases.
\<close>

fun bestLoop ::
    "phase \<Rightarrow> 'r \<Rightarrow> ('r, 'a) getRoute list \<Rightarrow> nat \<Rightarrow> 'a bestState \<Rightarrow> 'a bestState" where
  "bestLoop ph routable [] i st = (if ph = Unsubscribed then st else finish st)"
| "bestLoop ph routable (g # routers) i st =
     (let ob = g routable;
          asked = st\<lparr>invoked := invoked st @ [i]\<rparr>
      in if ph = Unsubscribed then
           (if timing ob = Sync \<and> ending ob = Completed
            then bestLoop Unsubscribed routable routers (Suc i) asked
            else asked)
         else if ph = Pushing \<and> \<not> score (bestRoute st) < 1 then finish st
         else
           (let ph' = (if timing ob = Async then Buffered else ph);
                st' = feed (ph' = Buffered) (emits ob) asked
            in if ph' = Buffered \<and> outcome st' \<noteq> Pending then
                 (if timing ob = Sync \<and> ending ob = Completed
                  then bestLoop Unsubscribed routable routers (Suc i) st'
                  else st')
               else
                 (case ending ob of
                    Completed \<Rightarrow> bestLoop ph' routable routers (Suc i) st'
                  | Failed e \<Rightarrow> observerError e st'
                  | Pending \<Rightarrow> st')))"

definition getRouteBest :: "('r, 'a) getRoute option list \<Rightarrow> 'r \<Rightarrow> 'a bestState" where
  "getRouteBest routers =
     (\<lambda>routable.
        bestLoop Pushing routable (map the (filter (\<lambda>router. router \<noteq> None) routers)) 0
          \<lparr>bestRoute = minRoute, isEmpty = True, delivered = [], outcome = Pending,
           invoked = []\<rparr>)"

section \<open>Example collaborators\<close>

text \<open>A predicate that answers with a Match of \<^verbatim>\<open>true\<close> it is half sure of.\<close>

definition halfSurePredicate :: "unit matcher" where
  "halfSurePredicate routable =
     Plain (JObj [(''value'', JBool True), (''score'', JNum (1 / 2))])"

text \<open>A then-branch that always routes to the one handler \<open>greet\<close>, with the default score.\<close>

definition thenGreet :: "unit \<Rightarrow> js \<Rightarrow> (unit, string) getRoute" where
  "thenGreet routable v = getRouteDo (\<lambda>r. ''greet'') None"

text \<open>A matcher that answers \<^verbatim>\<open>true\<close>, and a then-branch whose handler keeps the value it is given.\<close>

definition sayYes :: "js matcher" where
  "sayYes routable = Plain (JBool True)"

definition thenEcho :: "js \<Rightarrow> js \<Rightarrow> (js, js) getRoute" where
  "thenEcho routable v = getRouteDo (\<lambda>r. v) None"

text \<open>Routers that answer later: one with a no-route, one with a route it is half sure of.\<close>

definition laterNoRoute :: "(unit, string) getRoute" where
  "laterNoRoute routable = Obs [noRoute None] Completed Async"

definition laterMaybe :: "(unit, string) getRoute" where
  "laterMaybe routable = Obs [Action \<lparr>action = Thunk ''maybe'', score = 1 / 2\<rparr>] Completed Async"

section \<open>Facts about the operators\<close>

lemma mapEmits_total: "mapEmits (\<lambda>x. Inr (f x)) xs e = (map f xs, e)"
  by (induction xs) simp_all

lemma mapObs_total:
  "mapObs (\<lambda>x. Inr (f x)) ob = Obs (map f (emits ob)) (ending ob) (timing ob)"
  by (simp add: mapObs_def mapEmits_total)

lemma flatMap_single:
  "emits (flatMap f (Answer (Some m) Completed t)) = emits (f m) \<and>
   ending (flatMap f (Answer (Some m) Completed t)) = ending (f m)"
  by (cases "f m"; cases "ending (f m)") auto

lemma routeWithCombinedScore_scaled:
  "routeWithCombinedScore r s = Action (r\<lparr>score := s * score r\<rparr>)"
  by (simp add: routeWithCombinedScore_def combineScore_def Let_def)

text \<open>
  Conditional dispatch on a matcher that answers: a Match hands the routes of
  the then-router on, each action route rescaled by the score of the Match;
  a NoMatch hands on the routes of the else-router built from its reason.
\<close>

lemma ifMatches_match:
  assumes "mapAnswer normalizeMatchResult (toObservable (matcher routable)) =
             Answer (Some (Match v s)) Completed t"
  shows "emits (getRouteIfMatches matcher getThen getElse routable) =
           map (\<lambda>route. case route of
                          Action r \<Rightarrow> Action (r\<lparr>score := s * score r\<rparr>)
                        | No rsn \<Rightarrow> No rsn)
             (emits (getThen routable v routable))
       \<and> ending (getRouteIfMatches matcher getThen getElse routable) =
           ending (getThen routable v routable)"
  using assms
  by (auto simp: getRouteIfMatches_def Let_def flatMap_single mapObs_total
      routeWithCombinedScore_scaled split: Route.splits simp del: flatMap.simps)

lemma ifMatches_nomatch:
  assumes "mapAnswer normalizeMatchResult (toObservable (matcher routable)) =
             Answer (Some (NoMatch rsn)) Completed t"
  shows "emits (getRouteIfMatches matcher getThen getElse routable) =
           emits ((case getElse of
                     None \<Rightarrow> (\<lambda>routable rsn. getRouteNo (Some rsn))
                   | Some g \<Rightarrow> g) routable rsn routable)
       \<and> ending (getRouteIfMatches matcher getThen getElse routable) =
           ending ((case getElse of
                      None \<Rightarrow> (\<lambda>routable rsn. getRouteNo (Some rsn))
                    | Some g \<Rightarrow> g) routable rsn routable)"
  using assms
  by (simp add: getRouteIfMatches_def Let_def flatMap_single del: flatMap.simps)

section \<open>Normalization of matcher responses\<close>

text \<open>
  Claim C5, as the code has it. \<^verbatim>\<open>Router.normalizeMatchResult\<close> never sees the
  routable: the response \<^verbatim>\<open>true\<close> becomes a Match whose value is \<^verbatim>\<open>true\<close> itself,
  with score 1. \<^verbatim>\<open>null\<close>, \<^verbatim>\<open>undefined\<close> and \<^verbatim>\<open>false\<close> become a NoMatch with
  the default reason \<^verbatim>\<open>"none"\<close>, and \<^verbatim>\<open>{ value: "v", score: 0.3 }\<close> becomes the
  Match of \<^verbatim>\<open>"v"\<close> with score 0.3. Only the older helper \<^verbatim>\<open>matchize\<close> puts the
  message in the place of a boolean \<^verbatim>\<open>true\<close>, and it attaches no score.
\<close>

theorem normalize_round_trip:
  "normalizeMatchResult (JBool True) = Inr (Match (JBool True) 1)
   \<and> normalizeMatchResult JNull = Inr (NoMatch ''none'')
   \<and> normalizeMatchResult JUndefined = Inr (NoMatch ''none'')
   \<and> normalizeMatchResult (JBool False) = Inr (NoMatch ''none'')
   \<and> normalizeMatchResult (JObj [(''value'', JStr ''v''), (''score'', JNum (3 / 10))])
       = Inr (Match (JStr ''v'') (3 / 10))
   \<and> matchize (\<lambda>m. Plain (JBool True)) x = Obs [x] Completed Sync"
  by (simp add: defaultReason_def getProp_def scoreOr1_def matchize_def mapObs_def)

text \<open>
  Claim C5 as the specification words it fails: on the routable \<^verbatim>\<open>"hi"\<close> the
  response \<^verbatim>\<open>true\<close> is not normalized to a Match of \<^verbatim>\<open>"hi"\<close>, and the
  then-router of a conditional dispatch is handed \<^verbatim>\<open>true\<close>.
\<close>

theorem normalize_true_not_routable:
  "normalizeMatchResult (JBool True) \<noteq> Inr (Match (JStr ''hi'') 1)
   \<and> getRouteIfMatches sayYes thenEcho None (JStr ''hi'')
       = Obs [Action \<lparr>action = Thunk (JBool True), score = 1\<rparr>] Completed Sync"
  by (simp add: getRouteIfMatches_def sayYes_def thenEcho_def getRouteDo_def actionRoute_def
      mapObs_def routeWithCombinedScore_def combineScore_def)

text \<open>
  Claim C10. An object whose \<^verbatim>\<open>value\<close> is defined, whose \<^verbatim>\<open>score\<close> is 0 and
  which has no truthy \<^verbatim>\<open>reason\<close> is normalized to a Match with score 1; and no
  response at all is normalized to a Match with score 0.
\<close>

theorem normalize_zero_score:
  "(getProp ps ''value'' \<noteq> JUndefined \<and> getProp ps ''score'' = JNum 0
      \<and> \<not> truthy (getProp ps ''reason'')
    \<longrightarrow> normalizeMatchResult (JObj ps) = Inr (Match (getProp ps ''value'') 1))
   \<and> (normalizeMatchResult response = Inr (Match v s) \<longrightarrow> s \<noteq> 0)"
proof (intro conjI impI)
  assume "getProp ps ''value'' \<noteq> JUndefined \<and> getProp ps ''score'' = JNum 0
      \<and> \<not> truthy (getProp ps ''reason'')"
  then show "normalizeMatchResult (JObj ps) = Inr (Match (getProp ps ''value'') 1)"
    by (simp add: scoreOr1_def)
next
  assume "normalizeMatchResult response = Inr (Match v s)"
  then show "s \<noteq> 0"
    by (cases response rule: normalizeMatchResult.cases)
       (auto simp: scoreOr1_def split: if_splits js.splits)
qed

theorem normalize_zero_score_witness:
  "normalizeMatchResult (JObj [(''value'', JStr ''v''), (''score'', JNum 0)])
     = Inr (Match (JStr ''v'') 1)
   \<and> (1::real) \<noteq> 0"
  using normalize_zero_score
    [of "[(''value'', JStr ''v''), (''score'', JNum 0)]"
        "JObj [(''value'', JStr ''v''), (''score'', JNum 0)]" "JStr ''v''" 1]
  by (simp add: getProp_def)

text \<open>
  Claim C9, as the code has it. \<^verbatim>\<open>normalizeMatchResult\<close> throws exactly on an
  object whose \<^verbatim>\<open>reason\<close> is truthy and not a string (the reason error), and on
  an object without a truthy \<^verbatim>\<open>reason\<close> whose \<^verbatim>\<open>value\<close> is defined and whose
  \<^verbatim>\<open>score\<close> is defined and not a number (the score error). For a predicate,
  \<^verbatim>\<open>null\<close> left aside: on \<^verbatim>\<open>true\<close>, \<^verbatim>\<open>false\<close>, a failure (an object with a truthy
  \<^verbatim>\<open>reason\<close>) and a Match of \<^verbatim>\<open>true\<close> the matcher made from it hands the
  response on, on a Match of \<^verbatim>\<open>false\<close> it hands on \<^verbatim>\<open>false\<close>; on an object
  without a truthy \<^verbatim>\<open>reason\<close> whose \<^verbatim>\<open>value\<close> is defined and not a boolean it fails with the error that the value must be true or
  false; on everything else it fails with the error that a predicate may only
  return true, false, a Match of true or false, or a NoMatch.
\<close>

theorem malformed_responses:
  "(normalizeMatchResult response = Inl e \<longleftrightarrow>
      (\<exists>ps. response = JObj ps \<and>
         ((truthy (getProp ps ''reason'') \<and> typeof (getProp ps ''reason'') \<noteq> TString
             \<and> e = ReasonNotString)
          \<or> (\<not> truthy (getProp ps ''reason'') \<and> getProp ps ''value'' \<noteq> JUndefined
             \<and> getProp ps ''score'' \<noteq> JUndefined
             \<and> typeof (getProp ps ''score'') \<noteq> TNumber \<and> e = ScoreNotNumber))))
   \<and> ((answer = JBool True \<or> answer = JBool False
         \<or> (\<exists>ps. answer = JObj ps \<and>
               (truthy (getProp ps ''reason'') \<or> getProp ps ''value'' = JBool True)))
        \<longrightarrow> toObservable (predicateToMatcher (\<lambda>r. Plain answer) routable)
              = Answer (Some answer) Completed Sync)
   \<and> ((\<exists>ps. answer = JObj ps \<and> \<not> truthy (getProp ps ''reason'')
              \<and> getProp ps ''value'' = JBool False)
        \<longrightarrow> toObservable (predicateToMatcher (\<lambda>r. Plain answer) routable)
              = Answer (Some (JBool False)) Completed Sync)
   \<and> ((\<exists>ps. answer = JObj ps \<and> \<not> truthy (getProp ps ''reason'')
              \<and> getProp ps ''value'' \<noteq> JUndefined
              \<and> getProp ps ''value'' \<noteq> JBool True \<and> getProp ps ''value'' \<noteq> JBool False)
        \<longrightarrow> toObservable (predicateToMatcher (\<lambda>r. Plain answer) routable)
              = Answer None (Failed PredicateMatchValue) Sync)
   \<and> ((answer = JUndefined \<or> (\<exists>n. answer = JNum n) \<or> (\<exists>str. answer = JStr str)
         \<or> (\<exists>ps. answer = JObj ps \<and> \<not> truthy (getProp ps ''reason'')
               \<and> getProp ps ''value'' = JUndefined))
        \<longrightarrow> toObservable (predicateToMatcher (\<lambda>r. Plain answer) routable)
              = Answer None (Failed PredicateContract) Sync)"
proof -
  have raised: "normalizeMatchResult response = Inl e \<longleftrightarrow>
      (\<exists>ps. response = JObj ps \<and>
         ((truthy (getProp ps ''reason'') \<and> typeof (getProp ps ''reason'') \<noteq> TString
             \<and> e = ReasonNotString)
          \<or> (\<not> truthy (getProp ps ''reason'') \<and> getProp ps ''value'' \<noteq> JUndefined
             \<and> getProp ps ''score'' \<noteq> JUndefined
             \<and> typeof (getProp ps ''score'') \<noteq> TNumber \<and> e = ScoreNotNumber)))"
    by (cases response rule: normalizeMatchResult.cases)
       (auto split: if_splits js.splits)
  have mapped: "toObservable (predicateToMatcher (\<lambda>r. Plain answer) routable) =
          (case predicateResponse answer of
             Inl err \<Rightarrow> Answer None (Failed err) Sync
           | Inr v \<Rightarrow> Answer (Some v) Completed Sync)"
    by (simp add: predicateToMatcher_def split: sum.splits)
  have passed: "toObservable (predicateToMatcher (\<lambda>r. Plain answer) routable)
              = Answer (Some answer) Completed Sync"
    if "answer = JBool True \<or> answer = JBool False
         \<or> (\<exists>ps. answer = JObj ps \<and>
               (truthy (getProp ps ''reason'') \<or> getProp ps ''value'' = JBool True))"
    using that by (auto simp: mapped)
  have refused: "toObservable (predicateToMatcher (\<lambda>r. Plain answer) routable)
              = Answer (Some (JBool False)) Completed Sync"
    if "\<exists>ps. answer = JObj ps \<and> \<not> truthy (getProp ps ''reason'')
              \<and> getProp ps ''value'' = JBool False"
    using that by (auto simp: mapped)
  have bad_value: "toObservable (predicateToMatcher (\<lambda>r. Plain answer) routable)
              = Answer None (Failed PredicateMatchValue) Sync"
    if "\<exists>ps. answer = JObj ps \<and> \<not> truthy (getProp ps ''reason'')
              \<and> getProp ps ''value'' \<noteq> JUndefined
              \<and> getProp ps ''value'' \<noteq> JBool True \<and> getProp ps ''value'' \<noteq> JBool False"
    using that by (auto simp: mapped)
  have bad_answer: "toObservable (predicateToMatcher (\<lambda>r. Plain answer) routable)
              = Answer None (Failed PredicateContract) Sync"
    if "answer = JUndefined \<or> (\<exists>n. answer = JNum n) \<or> (\<exists>str. answer = JStr str)
         \<or> (\<exists>ps. answer = JObj ps \<and> \<not> truthy (getProp ps ''reason'')
               \<and> getProp ps ''value'' = JUndefined)"
    using that by (auto simp: mapped)
  show ?thesis
    using raised passed refused bad_value bad_answer by blast
qed

theorem malformed_responses_witness:
  "normalizeMatchResult (JObj [(''reason'', JNum 5)]) = Inl ReasonNotString
   \<and> normalizeMatchResult (JObj [(''value'', JStr ''v''), (''score'', JStr ''high'')])
       = Inl ScoreNotNumber
   \<and> toObservable (predicateToMatcher (\<lambda>r. Plain (JBool True)) ())
       = Answer (Some (JBool True)) Completed Sync
   \<and> toObservable (predicateToMatcher (\<lambda>r. Plain (JObj [(''value'', JStr ''yes'')])) ())
       = Answer None (Failed PredicateMatchValue) Sync
   \<and> toObservable (predicateToMatcher (\<lambda>r. Plain (JStr ''yes'')) ())
       = Answer None (Failed PredicateContract) Sync"
  using malformed_responses [of "JObj [(''reason'', JNum 5)]" ReasonNotString "JBool True" "()"]
    malformed_responses
      [of "JObj [(''value'', JStr ''v''), (''score'', JStr ''high'')]" ScoreNotNumber
          "JObj [(''value'', JStr ''yes'')]" "()"]
    malformed_responses [of JNull ReasonNotString "JStr ''yes''" "()"]
  by (simp add: getProp_def)

text \<open>
  Claim C9 as the specification words it fails: the object \<^verbatim>\<open>{ reason: 0 }\<close> has
  a reason that is present and not a string, and normalization does not throw;
  it wraps the object as the value of a Match.
\<close>

theorem falsy_reason_not_rejected:
  "typeof (getProp [(''reason'', JNum 0)] ''reason'') \<noteq> TString
   \<and> normalizeMatchResult (JObj [(''reason'', JNum 0)])
       = Inr (Match (JObj [(''reason'', JNum 0)]) 1)"
  by (simp add: getProp_def)

section \<open>Scores\<close>

text \<open>
  Claim C8. For an action route at reference \<open>r\<close> of the store and a new score
  \<open>s\<close>: the call returns a reference; when the recombined score equals the
  route's score, in particular when \<open>s = 1\<close>, it is \<open>r\<close> itself and the store is
  as it was; otherwise it is a reference that was not in the store, holding the
  route with the recombined score and every other field as in \<open>r\<close>. No object
  that was in the store has changed, and the object returned is the value
  \<^verbatim>\<open>routeWithCombinedScore\<close> computes.
\<close>

theorem routeWithCombinedScore_identity:
  assumes "r < length h"
  shows "\<exists>h' r'. routeWithCombinedScore_ref h r s = Some (h', r')
     \<and> (combineScore s (score (h ! r)) = score (h ! r) \<longrightarrow> r' = r \<and> h' = h)
     \<and> (s = 1 \<longrightarrow> r' = r \<and> h' = h)
     \<and> (combineScore s (score (h ! r)) \<noteq> score (h ! r) \<longrightarrow>
          r' = length h \<and> length h' = Suc (length h)
          \<and> h' ! r' = (h ! r)\<lparr>score := combineScore s (score (h ! r))\<rparr>)
     \<and> (\<forall>q < length h. h' ! q = h ! q)
     \<and> routeWithCombinedScore (h ! r) s = Action (h' ! r')"
  using assms
  by (auto simp: routeWithCombinedScore_ref_def routeWithCombinedScore_def combineScore_def
      Let_def nth_append)

theorem routeWithCombinedScore_identity_witness:
  "\<exists>h' r'. routeWithCombinedScore_ref [\<lparr>action = Thunk ''greet'', score = 1 / 2\<rparr>] 0 (1 / 2)
              = Some (h', r')
     \<and> r' = 1
     \<and> h' ! r' = \<lparr>action = Thunk ''greet'', score = 1 / 4\<rparr>
     \<and> h' ! 0 = \<lparr>action = Thunk ''greet'', score = 1 / 2\<rparr>"
  using routeWithCombinedScore_identity
    [of 0 "[\<lparr>action = Thunk ''greet'', score = 1 / 2\<rparr>]" "1 / 2"]
  by (auto simp: combineScore_def)

text \<open>
  Claim C6. \<^verbatim>\<open>combineScore\<close> multiplies. A matcher that answers a defined value
  with score \<open>s1\<close>, around a matcher that answers a defined value with score
  \<open>s2\<close>, around a handler, resolves to the one action route of the handler with
  score \<open>s1 * s2\<close> (the scores not 0, which normalization reads as 1): for 0.5
  and 0.8 the score is 0.4. Numbers are exact here.
\<close>

theorem score_composition:
  assumes "v1 \<noteq> JUndefined" and "v2 \<noteq> JUndefined" and "s1 \<noteq> 0" and "s2 \<noteq> 0"
  shows "combineScore outer inner = outer * inner
     \<and> getRouteIfMatches (\<lambda>r. Plain (JObj [(''value'', v1), (''score'', JNum s1)]))
         (\<lambda>r v. getRouteIfMatches (\<lambda>r. Plain (JObj [(''value'', v2), (''score'', JNum s2)]))
                  (\<lambda>r v. getRouteDo handler None) None)
         None routable
       = Obs [Action \<lparr>action = Thunk (handler routable), score = s1 * s2\<rparr>] Completed Sync"
  using assms
  by (simp add: combineScore_def getRouteIfMatches_def getRouteDo_def actionRoute_def
      mapObs_def getProp_def scoreOr1_def routeWithCombinedScore_def)

theorem score_composition_witness:
  "getRouteIfMatches (\<lambda>r. Plain (JObj [(''value'', JStr ''a''), (''score'', JNum (1 / 2))]))
     (\<lambda>r v. getRouteIfMatches (\<lambda>r. Plain (JObj [(''value'', JStr ''b''), (''score'', JNum (4 / 5))]))
              (\<lambda>r v. getRouteDo (\<lambda>r. ''greet'') None) None)
     None ()
   = Obs [Action \<lparr>action = Thunk ''greet'', score = 2 / 5\<rparr>] Completed Sync"
  using score_composition [of "JStr ''a''" "JStr ''b''" "1 / 2" "4 / 5" 0 0 "\<lambda>r. ''greet''" "()"]
  by simp

text \<open>
  Claim C7, as the code has it. In \<^verbatim>\<open>getRouteIfTrue$\<close>, for a predicate that
  answers and completes: on \<^verbatim>\<open>true\<close>, and on a Match of \<^verbatim>\<open>true\<close> whose score is
  absent,
  0 or 1, the routes of the then-router come back as they are; on a Match of
  \<^verbatim>\<open>true\<close> with any other score \<open>s\<close>, every action route of the then-router
  comes back with its score multiplied by \<open>s\<close>; on \<^verbatim>\<open>false\<close> and on a Match of
  \<^verbatim>\<open>false\<close> the routes are those of the else-router for the default reason, and
  on a failure those of the else-router for its reason.
\<close>

theorem getRouteIfTrue_score:
  assumes "toObservable (predicate routable) = Answer (Some response) Completed t"
  shows "(response = JBool True \<or>
          (\<exists>ps. response = JObj ps \<and> \<not> truthy (getProp ps ''reason'') \<and>
                getProp ps ''value'' = JBool True \<and>
                getProp ps ''score'' \<in> {JUndefined, JNum 0, JNum 1})
          \<longrightarrow> emits (getRouteIfTrue predicate getThen getElse routable) =
                emits (getThen routable (JBool True) routable)
            \<and> ending (getRouteIfTrue predicate getThen getElse routable) =
                ending (getThen routable (JBool True) routable))
       \<and> (\<forall>ps s. response = JObj ps \<and> \<not> truthy (getProp ps ''reason'') \<and>
                getProp ps ''value'' = JBool True \<and> getProp ps ''score'' = JNum s \<and> s \<noteq> 0
          \<longrightarrow> emits (getRouteIfTrue predicate getThen getElse routable) =
                map (\<lambda>route. case route of
                               Action r \<Rightarrow> Action (r\<lparr>score := s * score r\<rparr>)
                             | No rsn \<Rightarrow> No rsn)
                  (emits (getThen routable (JBool True) routable))
            \<and> ending (getRouteIfTrue predicate getThen getElse routable) =
                ending (getThen routable (JBool True) routable))
       \<and> (response = JBool False \<or>
          (\<exists>ps. response = JObj ps \<and> \<not> truthy (getProp ps ''reason'') \<and>
                getProp ps ''value'' = JBool False)
          \<longrightarrow> emits (getRouteIfTrue predicate getThen getElse routable) =
                emits ((case getElse of
                          None \<Rightarrow> (\<lambda>routable rsn. getRouteNo (Some rsn))
                        | Some g \<Rightarrow> g) routable defaultReason routable))
       \<and> (\<forall>ps rsn. response = JObj ps \<and> getProp ps ''reason'' = JStr rsn \<and> rsn \<noteq> []
          \<longrightarrow> emits (getRouteIfTrue predicate getThen getElse routable) =
                emits ((case getElse of
                          None \<Rightarrow> (\<lambda>routable rsn. getRouteNo (Some rsn))
                        | Some g \<Rightarrow> g) routable rsn routable))"
proof -
  let ?m = "predicateToMatcher predicate"
  have norm: "mapAnswer normalizeMatchResult (toObservable (?m routable)) =
      (case predicateResponse response of
         Inl e \<Rightarrow> Answer None (Failed e) t
       | Inr v \<Rightarrow> (case normalizeMatchResult v of
                    Inl e \<Rightarrow> Answer None (Failed e) t
                  | Inr mr \<Rightarrow> Answer (Some mr) Completed t))"
    using assms by (simp add: predicateToMatcher_def split: sum.splits)
  have idm: "map (\<lambda>route. case route of
                            Action r \<Rightarrow> Action (r\<lparr>score := 1 * score r\<rparr>)
                          | No rsn \<Rightarrow> No rsn) xs = xs" for xs :: "'b Route list"
    by (induction xs) (auto split: Route.splits)
  show ?thesis
    unfolding getRouteIfTrue_def
    apply (intro conjI impI allI)
    subgoal
      apply (erule disjE)
      subgoal
        using ifMatches_match [of ?m routable "JBool True" 1 t getThen getElse] norm idm
        by simp
      subgoal
        using ifMatches_match [of ?m routable "JBool True" 1 t getThen getElse] norm idm
        by (auto simp: scoreOr1_def)
      done
    subgoal
      apply (erule disjE)
      subgoal
        using ifMatches_match [of ?m routable "JBool True" 1 t getThen getElse] norm idm
        by simp
      subgoal
        using ifMatches_match [of ?m routable "JBool True" 1 t getThen getElse] norm idm
        by (auto simp: scoreOr1_def)
      done
    subgoal for ps s
      using ifMatches_match [of ?m routable "JBool True" s t getThen getElse] norm
      by (auto simp: scoreOr1_def)
    subgoal for ps s
      using ifMatches_match [of ?m routable "JBool True" s t getThen getElse] norm
      by (auto simp: scoreOr1_def)
    subgoal
      using ifMatches_nomatch [of ?m routable defaultReason t getThen getElse] norm
      by auto
    subgoal for ps rsn
      using ifMatches_nomatch [of ?m routable rsn t getThen getElse] norm
      by auto
    done
qed

theorem getRouteIfTrue_score_witness:
  "emits (getRouteIfTrue halfSurePredicate thenGreet None ()) =
     map (\<lambda>route. case route of
                    Action r \<Rightarrow> Action (r\<lparr>score := (1 / 2) * score r\<rparr>)
                  | No rsn \<Rightarrow> No rsn)
       (emits (thenGreet () (JBool True) ()))"
  using getRouteIfTrue_score
    [of halfSurePredicate "()" "JObj [(''value'', JBool True), (''score'', JNum (1 / 2))]" Sync
        thenGreet None]
  by (simp add: halfSurePredicate_def getProp_def)

text \<open>
  Claim C7 as the specification words it fails: the predicate that answers a
  Match of \<^verbatim>\<open>true\<close> with score 0.5 passes the contract, and the route of the
  then-router, of score 1, comes back with score 0.5.
\<close>

theorem predicate_match_rescales:
  "getRouteIfTrue halfSurePredicate thenGreet None () =
     Obs [Action \<lparr>action = Thunk ''greet'', score = 1 / 2\<rparr>] Completed Sync
   \<and> thenGreet () (JBool True) () =
     Obs [Action \<lparr>action = Thunk ''greet'', score = 1\<rparr>] Completed Sync"
  by (simp add: getRouteIfTrue_def getRouteIfMatches_def predicateToMatcher_def
      halfSurePredicate_def thenGreet_def getRouteDo_def actionRoute_def mapObs_def
      getProp_def scoreOr1_def routeWithCombinedScore_def combineScore_def)

section \<open>The combinator \<open>first\<close>, traced\<close>

text \<open>
  Claim C1 fails on the code. The first router answers a no-route later, the
  second an action route at once, the third is a spy: the action route of the
  second is the result, and then \<^verbatim>\<open>getRoute$\<close> of the spy is called all the
  same. When the first router answers at once, the spy is not asked.
\<close>

theorem getRouteFirst_asks_behind_winner:
  "getRouteFirst [Some laterNoRoute, Some (getRouteDo (\<lambda>r. ''greet'') None),
                  Some (getRouteDo (\<lambda>r. ''spy'') None)] ()
     = Run [Trying 0, Trying 1, Next (Action \<lparr>action = Thunk ''greet'', score = 1\<rparr>), Trying 2]
         Completed
   \<and> getRouteFirst [Some (getRouteNo None), Some (getRouteDo (\<lambda>r. ''greet'') None),
                    Some (getRouteDo (\<lambda>r. ''spy'') None)] ()
     = Run [Trying 0, Trying 1, Next (Action \<lparr>action = Thunk ''greet'', score = 1\<rparr>)]
         Completed"
  by (simp add: getRouteFirst_def laterNoRoute_def getRouteNo_def getRouteDo_def noRoute_def
      actionRoute_def before_def Let_def)

section \<open>The combinator \<open>best\<close>, proved\<close>

lemmas observer_defs = observerNext_def observerComplete_def observerError_def
lemmas subscriber_defs = onNext_def onComplete_def deliver_def finish_def noRoute_def

lemma deliver_low:
  assumes "outcome st = Pending" and "score (bestRoute st) < c" and "c \<le> 1"
      and "\<forall>a. route = Action a \<longrightarrow> score a < c"
  shows "outcome (deliver route st) = Pending \<and> score (bestRoute (deliver route st)) < c
       \<and> delivered (deliver route st) = delivered st \<and> invoked (deliver route st) = invoked st"
  using assms
  by (cases route) (auto simp add: observer_defs subscriber_defs Let_def)

lemma feed_low:
  assumes "outcome st = Pending" and "score (bestRoute st) < c" and "c \<le> 1"
      and "\<forall>a. Action a \<in> set routes \<longrightarrow> score a < c"
  shows "outcome (feed torn routes st) = Pending \<and> score (bestRoute (feed torn routes st)) < c
       \<and> delivered (feed torn routes st) = delivered st \<and> invoked (feed torn routes st) = invoked st"
  using assms
proof (induction routes arbitrary: st)
  case Nil
  then show ?case by simp
next
  case (Cons route routes)
  have d: "outcome (deliver route st) = Pending \<and> score (bestRoute (deliver route st)) < c
       \<and> delivered (deliver route st) = delivered st \<and> invoked (deliver route st) = invoked st"
    using deliver_low[of st c route] Cons.prems by simp
  have "outcome (feed torn routes (deliver route st)) = Pending
      \<and> score (bestRoute (feed torn routes (deliver route st))) < c
      \<and> delivered (feed torn routes (deliver route st)) = delivered (deliver route st)
      \<and> invoked (feed torn routes (deliver route st)) = invoked (deliver route st)"
    using Cons.IH[of "deliver route st"] d Cons.prems by simp
  then show ?case using d Cons.prems by simp
qed

lemma feed_append: "feed torn (xs @ ys) st = feed torn ys (feed torn xs st)"
proof (induction xs arbitrary: st)
  case Nil
  then show ?case by simp
next
  case (Cons x xs)
  then show ?case by (cases ys) auto
qed

lemma feed_invoked:
  "feed torn routes (st\<lparr>invoked := v\<rparr>) = (feed torn routes st)\<lparr>invoked := v\<rparr>"
proof (induction routes arbitrary: st)
  case Nil
  then show ?case by simp
next
  case (Cons route routes)
  have "deliver route (st\<lparr>invoked := v\<rparr>) = (deliver route st)\<lparr>invoked := v\<rparr>"
    by (cases route) (simp_all add: observer_defs subscriber_defs Let_def)
  then show ?case using Cons by simp
qed

lemma deliver_not_better:
  assumes "\<forall>a. route = Action a \<longrightarrow> score a \<le> score (bestRoute st)"
  shows "bestRoute (deliver route st) = bestRoute st \<and> outcome (deliver route st) = outcome st
       \<and> delivered (deliver route st) = delivered st \<and> invoked (deliver route st) = invoked st"
  using assms
  by (cases route) (simp_all add: observer_defs subscriber_defs Let_def)

lemma feed_not_better:
  assumes "\<forall>a. Action a \<in> set routes \<longrightarrow> score a \<le> score (bestRoute st)"
  shows "bestRoute (feed False routes st) = bestRoute st \<and> outcome (feed False routes st) = outcome st
       \<and> delivered (feed False routes st) = delivered st \<and> invoked (feed False routes st) = invoked st"
  using assms
proof (induction routes arbitrary: st)
  case Nil
  then show ?case by simp
next
  case (Cons route routes)
  have d: "bestRoute (deliver route st) = bestRoute st \<and> outcome (deliver route st) = outcome st
       \<and> delivered (deliver route st) = delivered st \<and> invoked (deliver route st) = invoked st"
    using deliver_not_better[of route st] Cons.prems by simp
  then show ?case using Cons.IH[of "deliver route st"] Cons.prems by simp
qed

lemma deliver_better:
  assumes "outcome st = Pending" and "score (bestRoute st) < score b" and "score b < 1"
  shows "bestRoute (deliver (Action b) st) = b \<and> outcome (deliver (Action b) st) = Pending
       \<and> delivered (deliver (Action b) st) = delivered st
       \<and> invoked (deliver (Action b) st) = invoked st"
  using assms by (simp add: observer_defs subscriber_defs Let_def)

lemma feed_open:
  assumes "outcome st = Pending" and "score (bestRoute st) < 1"
      and "\<forall>a. Action a \<in> set routes \<longrightarrow> score a < 1"
  shows "feed torn routes st = feed False routes st"
  using assms
proof (induction routes arbitrary: st)
  case Nil
  then show ?case by simp
next
  case (Cons route routes)
  have d: "outcome (deliver route st) = Pending \<and> score (bestRoute (deliver route st)) < 1"
    using deliver_low[of st 1 route] Cons.prems by simp
  then show ?case using Cons.IH[of "deliver route st"] Cons.prems by simp
qed

lemma feed_first_best:
  assumes "outcome st = Pending" and "score (bestRoute st) < score b" and "score b < 1"
      and "\<forall>a. Action a \<in> set early \<longrightarrow> score a < score b"
      and "\<forall>a. Action a \<in> set late \<longrightarrow> score a \<le> score b"
  shows "bestRoute (feed False (early @ Action b # late) st) = b
       \<and> outcome (feed False (early @ Action b # late) st) = Pending
       \<and> delivered (feed False (early @ Action b # late) st) = delivered st
       \<and> invoked (feed False (early @ Action b # late) st) = invoked st"
proof -
  let ?s1 = "feed False early st"
  have s1: "outcome ?s1 = Pending \<and> score (bestRoute ?s1) < score b
       \<and> delivered ?s1 = delivered st \<and> invoked ?s1 = invoked st"
    using feed_low[of st "score b" early False] assms by simp
  let ?s2 = "deliver (Action b) ?s1"
  have s2: "bestRoute ?s2 = b \<and> outcome ?s2 = Pending \<and> delivered ?s2 = delivered st
       \<and> invoked ?s2 = invoked st"
    using deliver_better[of ?s1 b] s1 assms(3) by simp
  have s3: "bestRoute (feed False late ?s2) = bestRoute ?s2 \<and> outcome (feed False late ?s2) = outcome ?s2
       \<and> delivered (feed False late ?s2) = delivered ?s2 \<and> invoked (feed False late ?s2) = invoked ?s2"
    using feed_not_better[of late ?s2] s2 assms(5) by simp
  show ?thesis using s2 s3 by (simp add: feed_append)
qed

lemma bestLoop_step_open:
  assumes "ph \<noteq> Unsubscribed" and "outcome st = Pending" and "score (bestRoute st) < 1"
      and "ending (g routable) = Completed"
      and "\<forall>b. Action b \<in> set (emits (g routable)) \<longrightarrow> score b < 1"
  shows "bestLoop ph routable (g # rs) i st =
           bestLoop (if timing (g routable) = Async then Buffered else ph) routable rs (Suc i)
             ((feed False (emits (g routable)) st)\<lparr>invoked := invoked st @ [i]\<rparr>)"
proof -
  have fo: "feed torn (emits (g routable)) (st\<lparr>invoked := invoked st @ [i]\<rparr>) =
      (feed False (emits (g routable)) st)\<lparr>invoked := invoked st @ [i]\<rparr>" for torn
    using feed_open[of st "emits (g routable)" torn] assms(2,3,5) by (simp add: feed_invoked)
  have op: "outcome (feed False (emits (g routable)) st) = Pending"
    using feed_low[of st 1 "emits (g routable)" False] assms(2,3,5) by simp
  show ?thesis
    using assms(1,3,4) op
    by (cases ph; cases "timing (g routable)") (simp_all add: Let_def fo)
qed

lemma bestLoop_all_low:
  assumes "ph \<noteq> Unsubscribed" and "outcome st = Pending" and "score (bestRoute st) < 1"
      and "\<forall>g \<in> set rs. ending (g routable) = Completed
              \<and> (\<forall>b. Action b \<in> set (emits (g routable)) \<longrightarrow> score b < 1)"
  shows "bestLoop ph routable rs i st =
           finish ((feed False (concat (map (\<lambda>g. emits (g routable)) rs)) st)
                    \<lparr>invoked := invoked st @ [i..<i + length rs]\<rparr>)"
  using assms
proof (induction rs arbitrary: i st ph)
  case Nil
  then show ?case by simp
next
  case (Cons p rs)
  let ?ph = "if timing (p routable) = Async then Buffered else ph"
  let ?f1 = "feed False (emits (p routable)) st"
  let ?s1 = "?f1\<lparr>invoked := invoked st @ [i]\<rparr>"
  let ?rest = "concat (map (\<lambda>g. emits (g routable)) rs)"
  have ph: "?ph \<noteq> Unsubscribed"
    using Cons.prems(1) by simp
  have f1: "outcome ?f1 = Pending \<and> score (bestRoute ?f1) < 1 \<and> invoked ?f1 = invoked st"
    using feed_low[of st 1 "emits (p routable)" False] Cons.prems by simp
  have "bestLoop ph routable (p # rs) i st = bestLoop ?ph routable rs (Suc i) ?s1"
    using bestLoop_step_open[of ph st p routable rs i] Cons.prems by simp
  also have "\<dots> = finish ((feed False ?rest ?s1)
                \<lparr>invoked := invoked ?s1 @ [Suc i..<Suc i + length rs]\<rparr>)"
    using Cons.IH[of ?ph ?s1 "Suc i"] ph f1 Cons.prems(4) by simp
  also have "(feed False ?rest ?s1)\<lparr>invoked := invoked ?s1 @ [Suc i..<Suc i + length rs]\<rparr>
      = (feed False ?rest ?f1)\<lparr>invoked := invoked st @ [i..<i + length (p # rs)]\<rparr>"
    by (simp add: feed_invoked upt_conv_Cons del: upt_Suc)
  also have "feed False ?rest ?f1 = feed False (concat (map (\<lambda>g. emits (g routable)) (p # rs))) st"
    by (simp add: feed_append)
  finally show ?case .
qed

lemma initial_state:
  "getRouteBest routers routable =
     bestLoop Pushing routable (map the (filter (\<lambda>router. router \<noteq> None) routers)) 0
       \<lparr>bestRoute = minRoute, isEmpty = True, delivered = [], outcome = Pending, invoked = []\<rparr>"
  by (simp only: getRouteBest_def)

lemma finish_open:
  assumes "outcome st = Pending" and "0 < score (bestRoute st)"
  shows "delivered (finish st) = delivered st @ [Action (bestRoute st)]
       \<and> outcome (finish st) = Completed \<and> invoked (finish st) = invoked st"
  using assms by (simp add: observer_defs subscriber_defs)

text \<open>
  Claim C2 fails on the code: without routers, with a router that answers a
  no-route, and with a router whose action route has score 0, the observer of
  \<^verbatim>\<open>getRouteBest$\<close> is completed without any route. The no-route that
  \<^verbatim>\<open>defaultIfEmpty\<close> supplies reaches the subscriber and is dropped there.
\<close>

theorem getRouteBest_no_route_missing:
  "delivered (getRouteBest [] routable) = []
   \<and> outcome (getRouteBest [] routable) = Completed
   \<and> delivered (getRouteBest [Some (getRouteNo rsn)] routable) = []
   \<and> outcome (getRouteBest [Some (getRouteNo rsn)] routable) = Completed
   \<and> delivered (getRouteBest [Some (getRouteDo handler (Some 0))] routable) = []
   \<and> outcome (getRouteBest [Some (getRouteDo handler (Some 0))] routable) = Completed"
  by (simp add: getRouteBest_def getRouteNo_def getRouteDo_def minRoute_def actionRoute_def
      observer_defs subscriber_defs Let_def)

text \<open>
  Claim C3 fails on the code. The first router answers later, with a route of
  score 0.5; the second answers at once with a route of score 1; the third is
  a spy. The route of score 1 is delivered and the observer completed, and
  then \<^verbatim>\<open>getRoute$\<close> of the spy is called all the same. When the first router
  answers at once, the spy is not asked.
\<close>

theorem getRouteBest_asks_behind_certain:
  "delivered (getRouteBest [Some laterMaybe, Some (getRouteDo (\<lambda>r. ''sure'') None),
                            Some (getRouteDo (\<lambda>r. ''spy'') None)] ())
     = [Action \<lparr>action = Thunk ''sure'', score = 1\<rparr>]
   \<and> outcome (getRouteBest [Some laterMaybe, Some (getRouteDo (\<lambda>r. ''sure'') None),
                            Some (getRouteDo (\<lambda>r. ''spy'') None)] ())
     = Completed
   \<and> invoked (getRouteBest [Some laterMaybe, Some (getRouteDo (\<lambda>r. ''sure'') None),
                            Some (getRouteDo (\<lambda>r. ''spy'') None)] ())
     = [0, 1, 2]
   \<and> invoked (getRouteBest [Some (getRouteDo (\<lambda>r. ''maybe'') (Some (1 / 2))),
                            Some (getRouteDo (\<lambda>r. ''sure'') None),
                            Some (getRouteDo (\<lambda>r. ''spy'') None)] ())
     = [0, 1]"
  by (simp add: getRouteBest_def laterMaybe_def getRouteDo_def minRoute_def actionRoute_def
      observer_defs subscriber_defs Let_def)

text \<open>
  Claim C4. Let every defined router complete, and let \<open>b\<close>, of a score above 0
  and below 1, be the first among the routes observed to reach the highest
  score: the routes before it score strictly less, those after it at most as
  much. Then \<open>b\<close> is the one route delivered, after all routers were asked. The
  subscriber replaces its best route exactly when the new score is strictly
  greater.
\<close>

theorem getRouteBest_first_wins:
  assumes "rs = map the (filter (\<lambda>router. router \<noteq> None) routers)"
      and "\<forall>g \<in> set rs. ending (g routable) = Completed"
      and "concat (map (\<lambda>g. emits (g routable)) rs) = early @ Action b # late"
      and "\<forall>a. Action a \<in> set early \<longrightarrow> score a < score b"
      and "\<forall>a. Action a \<in> set late \<longrightarrow> score a \<le> score b"
      and "0 < score b" and "score b < 1"
  shows "delivered (getRouteBest routers routable) = [Action b]
       \<and> outcome (getRouteBest routers routable) = Completed
       \<and> invoked (getRouteBest routers routable) = [0..<length rs]
       \<and> bestRoute (onNext (Action r) st)
           = (if score r > score (bestRoute st) then r else bestRoute st)"
proof -
  let ?st = "\<lparr>bestRoute = minRoute, isEmpty = True, delivered = [], outcome = Pending,
              invoked = []\<rparr> :: 'b bestState"
  let ?cands = "concat (map (\<lambda>g. emits (g routable)) rs)"
  have st: "outcome ?st = Pending" "score (bestRoute ?st) < 1" "score (bestRoute ?st) < score b"
    using assms(6) by (simp_all add: minRoute_def actionRoute_def)
  have low: "\<forall>g \<in> set rs. ending (g routable) = Completed
               \<and> (\<forall>a. Action a \<in> set (emits (g routable)) \<longrightarrow> score a < 1)"
  proof (intro ballI conjI allI impI)
    fix g assume "g \<in> set rs"
    then show "ending (g routable) = Completed" using assms(2) by simp
  next
    fix g a assume g: "g \<in> set rs" and a: "Action a \<in> set (emits (g routable))"
    then have "Action a \<in> set ?cands" by auto
    then have "Action a \<in> set early \<or> a = b \<or> Action a \<in> set late"
      by (simp only: assms(3)) auto
    then have "score a \<le> score b" using assms(4,5) by auto
    then show "score a < 1" using assms(7) by simp
  qed
  have gb: "getRouteBest routers routable = bestLoop Pushing routable rs 0 ?st"
    by (simp only: initial_state assms(1))
  let ?fed = "feed False ?cands ?st"
  have fed: "bestRoute ?fed = b \<and> outcome ?fed = Pending \<and> delivered ?fed = [] \<and> invoked ?fed = []"
    using feed_first_best[OF st(1) st(3) assms(7) assms(4) assms(5)] by (simp only: assms(3)) simp
  have loop: "bestLoop Pushing routable rs 0 ?st = finish (?fed\<lparr>invoked := invoked ?st @ [0..<0 + length rs]\<rparr>)"
    by (rule bestLoop_all_low
        [where st = ?st and rs = rs and routable = routable and ph = Pushing and i = 0,
         OF _ st(1) st(2) low]) simp
  have "delivered (bestLoop Pushing routable rs 0 ?st) = [Action b]
      \<and> outcome (bestLoop Pushing routable rs 0 ?st) = Completed
      \<and> invoked (bestLoop Pushing routable rs 0 ?st) = [0..<length rs]"
    using finish_open[of "?fed\<lparr>invoked := invoked ?st @ [0..<0 + length rs]\<rparr>"] fed assms(6)
    by (simp only: loop) simp
  moreover have "bestRoute (onNext (Action r) st)
           = (if score r > score (bestRoute st) then r else bestRoute st)"
    by (simp add: observer_defs subscriber_defs Let_def)
  ultimately show ?thesis by (simp only: gb)
qed

theorem getRouteBest_first_wins_witness:
  "delivered (getRouteBest [Some (getRouteDo (\<lambda>r. ''first'') (Some (85 / 100))),
                            Some (getRouteDo (\<lambda>r. ''second'') (Some (50 / 100))),
                            Some (getRouteDo (\<lambda>r. ''third'') (Some (85 / 100)))] ())
     = [Action \<lparr>action = Thunk ''first'', score = 85 / 100\<rparr>]"
  using getRouteBest_first_wins
    [of "[getRouteDo (\<lambda>r. ''first'') (Some (85 / 100)), getRouteDo (\<lambda>r. ''second'') (Some (50 / 100)),
          getRouteDo (\<lambda>r. ''third'') (Some (85 / 100))]"
        "[Some (getRouteDo (\<lambda>r. ''first'') (Some (85 / 100))),
          Some (getRouteDo (\<lambda>r. ''second'') (Some (50 / 100))),
          Some (getRouteDo (\<lambda>r. ''third'') (Some (85 / 100)))]"
        "()" "[]" "\<lparr>action = Thunk ''first'', score = 85 / 100\<rparr>"
        "[Action \<lparr>action = Thunk ''second'', score = 50 / 100\<rparr>,
          Action \<lparr>action = Thunk ''third'', score = 85 / 100\<rparr>]"
        "\<lparr>action = Thunk ''third'', score = 85 / 100\<rparr>"
        "\<lparr>bestRoute = \<lparr>action = Thunk ''first'', score = 85 / 100\<rparr>, isEmpty = False,
          delivered = [], outcome = Pending, invoked = [0, 1, 2]\<rparr>"]
  by (simp add: getRouteDo_def actionRoute_def)

end
